theory Spec2Isabelle
  imports Main "HOL-Library.Sublist" "HOL-Library.AList" "HOL-Library.List_Lexorder"
    "HOL-Library.Multiset"
begin

section \<open>Python strings\<close>

text \<open>
  The pipeline works on Python \<open>str\<close> values.  They are modelled as \<open>string\<close> (lists of
  \<open>char\<close>).  All keywords, delimiters, digits and patterns of the source are ASCII, and the
  model covers ASCII text: a character outside ASCII is an opaque character that is neither
  whitespace, nor a digit, nor a letter with a case.
\<close>

definition NL :: char where
  "NL = CHR 0x0A"

definition is_digit :: "char \<Rightarrow> bool" where
  "is_digit c = (c \<in> set ''0123456789'')"

definition is_upper :: "char \<Rightarrow> bool" where
  "is_upper c = (c \<in> set ''ABCDEFGHIJKLMNOPQRSTUVWXYZ'')"

definition is_lower :: "char \<Rightarrow> bool" where
  "is_lower c = (c \<in> set ''abcdefghijklmnopqrstuvwxyz'')"

text \<open>\<open>\s\<close> of \<open>re\<close> and the characters removed by \<open>str.strip()\<close>: the ASCII characters
  for which \<open>str.isspace\<close> holds (tab, LF, VT, FF, CR, FS, GS, RS, US, space).\<close>

definition is_space :: "char \<Rightarrow> bool" where
  "is_space c = (c \<in> set [CHR 0x09, CHR 0x0A, CHR 0x0B, CHR 0x0C, CHR 0x0D,
                            CHR 0x1C, CHR 0x1D, CHR 0x1E, CHR 0x1F, CHR 0x20])"

text \<open>\<open>\w\<close> of \<open>re\<close> on ASCII text.\<close>

definition is_word :: "char \<Rightarrow> bool" where
  "is_word c = (is_digit c \<or> is_upper c \<or> is_lower c \<or> c = CHR ''_'')"

definition lower_char :: "char \<Rightarrow> char" where
  "lower_char c =
     (case map_of (zip ''ABCDEFGHIJKLMNOPQRSTUVWXYZ'' ''abcdefghijklmnopqrstuvwxyz'') c of
        None \<Rightarrow> c
      | Some l \<Rightarrow> l)"

text \<open>\<open>s.lower()\<close>\<close>

definition py_lower :: "string \<Rightarrow> string" where
  "py_lower s = map lower_char s"

text \<open>\<open>sub in s\<close> on strings: \<open>sub\<close> occurs in \<open>s\<close> as a contiguous substring.\<close>

fun py_in :: "string \<Rightarrow> string \<Rightarrow> bool" where
  "py_in sub [] = (sub = [])"
| "py_in sub (c # cs) = (prefix sub (c # cs) \<or> py_in sub cs)"

text \<open>\<open>s.strip(chars)\<close> for a set of characters, and \<open>s.strip()\<close>.\<close>

definition strip_chars :: "(char \<Rightarrow> bool) \<Rightarrow> string \<Rightarrow> string" where
  "strip_chars P s = rev (dropWhile P (rev (dropWhile P s)))"

definition py_strip :: "string \<Rightarrow> string" where
  "py_strip s = strip_chars is_space s"

text \<open>\<open>s.split(sep)\<close> for a single separator character: always at least one piece.\<close>

fun py_split :: "char \<Rightarrow> string \<Rightarrow> string list" where
  "py_split sep [] = [[]]"
| "py_split sep (c # cs) =
     (if c = sep then [] # py_split sep cs
      else (case py_split sep cs of
              [] \<Rightarrow> [[c]]
            | p # ps \<Rightarrow> (c # p) # ps))"

text \<open>\<open>sep.join(parts)\<close>\<close>

fun py_join :: "string \<Rightarrow> string list \<Rightarrow> string" where
  "py_join sep [] = []"
| "py_join sep [p] = p"
| "py_join sep (p # q # ps) = p @ sep @ py_join sep (q # ps)"

text \<open>\<open>int(ds)\<close> for a run of ASCII digits as matched by \<open>\d+\<close>.\<close>

definition digit_val :: "char \<Rightarrow> int" where
  "digit_val c = int (of_char c) - 48"

definition int_of_digits :: "string \<Rightarrow> int" where
  "int_of_digits ds = foldl (\<lambda>a c. 10 * a + digit_val c) 0 ds"

section \<open>mapping\_parser.py: strategy classification\<close>

definition unavailable_keywords :: "string list" where
  "unavailable_keywords =
     [''not in ib'', ''external source'', ''safety database'', ''case report'',
      ''requires query'', ''not available'', ''n/a'']"

definition synthesis_keywords :: "string list" where
  "synthesis_keywords =
     [''synthesis'', ''combine'', ''summarize'', ''multiple sections'', ''rewrite'', ''adapt'']"

text \<open>
  \<open>MappingParser._determine_mapping_type\<close>.  The two \<open>for\<close> loops that return at the first
  keyword found are \<open>list_ex\<close> over the keyword lists.
\<close>

definition determine_mapping_type :: "string \<Rightarrow> string \<Rightarrow> string" where
  "determine_mapping_type ib_section notes =
     (let section_lower = py_lower ib_section;
          notes_lower = py_lower notes
      in if list_ex (\<lambda>keyword. py_in keyword section_lower \<or> py_in keyword notes_lower)
              unavailable_keywords
         then ''unavailable''
         else if list_ex (\<lambda>keyword. py_in keyword notes_lower) synthesis_keywords
         then ''synthesis_required''
         else if py_in ''+'' ib_section \<or> py_in '','' ib_section \<or> py_in ''and'' section_lower
         then ''synthesis_required''
         else ''direct_extract'')"

section \<open>mapping\_parser.py: page lists\<close>

text \<open>
  \<open>re.match(r'(\d+)\s*-\s*(\d+)', part)\<close>: anchored at the start of \<open>part\<close>.  Every
  quantifier of the pattern is followed by a character outside its class, so the greedy
  match is the only one: a maximal digit run, whitespace, a dash, whitespace, a maximal
  digit run.  The result is \<open>(int(group(1)), int(group(2)))\<close>.
\<close>

definition match_range :: "string \<Rightarrow> (int \<times> int) option" where
  "match_range part =
     (let d1 = takeWhile is_digit part;
          r1 = dropWhile is_space (dropWhile is_digit part)
      in if d1 = [] then None
         else (case r1 of
                 [] \<Rightarrow> None
               | c # r2 \<Rightarrow>
                   if c \<noteq> CHR ''-'' then None
                   else (let d2 = takeWhile is_digit (dropWhile is_space r2)
                         in if d2 = [] then None
                            else Some (int_of_digits d1, int_of_digits d2))))"

text \<open>\<open>re.search(r'\d+', part)\<close>: the first maximal digit run, if any.\<close>

definition search_digits :: "string \<Rightarrow> string option" where
  "search_digits part =
     (let ds = takeWhile is_digit (dropWhile (\<lambda>c. \<not> is_digit c) part)
      in if ds = [] then None else Some ds)"

text \<open>The body of the loop of \<open>_parse_pages\<close>: the pages one comma-separated part adds
  to \<open>page_list\<close>.  \<open>range(start, end + 1)\<close> is \<open>[start..end]\<close>.\<close>

definition part_pages :: "string \<Rightarrow> int list" where
  "part_pages part0 =
     (let part = py_strip part0
      in if py_in ''-'' part
         then (case match_range part of
                 Some (start, end) \<Rightarrow> [start..end]
               | None \<Rightarrow> [])
         else (case search_digits part of
                 Some ds \<Rightarrow> [int_of_digits ds]
               | None \<Rightarrow> []))"

text \<open>\<open>MappingParser._parse_pages\<close>; \<open>sorted(list(set(page_list)))\<close> is
  \<open>sort (remdups page_list)\<close>.\<close>

definition parse_pages :: "string \<Rightarrow> int list" where
  "parse_pages pages_str =
     (if pages_str = [] \<or> pages_str = ''N/A'' \<or> pages_str = ''-'' then []
      else sort (remdups (concat (map part_pages (py_split (CHR '','') pages_str)))))"

section \<open>mapping\_parser.py: the mapping table\<close>

text \<open>
  A field-mapping record is a Python \<open>dict\<close>; a key can be absent, which is \<open>None\<close> here.
  \<open>d['k']\<close> on an absent key raises \<open>KeyError\<close>, \<open>d.get('k', v)\<close> gives \<open>v\<close>.
\<close>

record mapping_info =
  field_description :: "string option"
  ib_section :: "string option"
  ib_pages :: "int list option"
  mapping_type :: "string option"
  notes_val :: "string option"

text \<open>A \<open>dict\<close> keyed by strings, in insertion order: assigning to a present key keeps
  its position (\<open>AList.update\<close>).\<close>

type_synonym mapping_dict = "(string \<times> mapping_info) list"

definition not_bar :: "char \<Rightarrow> bool" where
  "not_bar c = (c \<noteq> CHR ''|'')"

text \<open>
  \<open>table_row_pattern.match(line)\<close> for \<open>\|([^|]+)\|([^|]+)\|([^|]+)\|([^|]*)\|\<close>: the four
  groups, anchored at the start of the line.  What follows the fifth bar is ignored.
\<close>

definition match_table_row :: "string \<Rightarrow> (string \<times> string \<times> string \<times> string) option" where
  "match_table_row line =
     (case line of
        [] \<Rightarrow> None
      | c # r0 \<Rightarrow>
          if c \<noteq> CHR ''|'' then None
          else (let g1 = takeWhile not_bar r0; r1 = dropWhile not_bar r0 in
                if g1 = [] \<or> r1 = [] then None
                else (let g2 = takeWhile not_bar (tl r1); r2 = dropWhile not_bar (tl r1) in
                      if g2 = [] \<or> r2 = [] then None
                      else (let g3 = takeWhile not_bar (tl r2); r3 = dropWhile not_bar (tl r2) in
                            if g3 = [] \<or> r3 = [] then None
                            else (let g4 = takeWhile not_bar (tl r3);
                                      r4 = dropWhile not_bar (tl r3) in
                                  if r4 = [] then None else Some (g1, g2, g3, g4))))))"

definition is_ph_char :: "char \<Rightarrow> bool" where
  "is_ph_char c = (is_upper c \<or> is_digit c \<or> c = CHR ''_'')"

text \<open>\<open>\[INSERT_[A-Z0-9_]+\]\<close> matched at the start of \<open>s\<close>.\<close>

definition match_placeholder_at :: "string \<Rightarrow> string option" where
  "match_placeholder_at s =
     (if prefix ''[INSERT_'' s
      then (let body = takeWhile is_ph_char (drop 8 s)
            in if body \<noteq> [] \<and> prefix '']'' (dropWhile is_ph_char (drop 8 s))
               then Some (''[INSERT_'' @ body @ '']'')
               else None)
      else None)"

text \<open>\<open>re.search(r'\[INSERT_[A-Z0-9_]+\]', field)\<close>: the leftmost match, \<open>group(0)\<close>.\<close>

fun search_placeholder :: "string \<Rightarrow> string option" where
  "search_placeholder [] = None"
| "search_placeholder (c # cs) =
     (case match_placeholder_at (c # cs) of
        Some p \<Rightarrow> Some p
      | None \<Rightarrow> search_placeholder cs)"

text \<open>\<open>s.replace(old, '')\<close>: the occurrences of \<open>old\<close> are removed from left to right.\<close>

function py_remove :: "string \<Rightarrow> string \<Rightarrow> string" where
  "py_remove old [] = []"
| "py_remove old (c # cs) =
     (if old \<noteq> [] \<and> prefix old (c # cs)
      then py_remove old (drop (length old) (c # cs))
      else c # py_remove old cs)"
  by pat_completeness auto
termination
  by (relation "measure (\<lambda>(old, s). length s)") auto

definition header_labels :: "string list" where
  "header_labels = [''DSR Template Field'', ''DSR Field'', ''---'', []]"

text \<open>
  One iteration of the loop of \<open>parse_mapping_file\<close>: the entry a line contributes, if it
  is a table row, not a header or separator row, and carries a placeholder.
\<close>

definition row_entry :: "string \<Rightarrow> (string \<times> mapping_info) option" where
  "row_entry line =
     (case match_table_row line of
        None \<Rightarrow> None
      | Some (g1, g2, g3, g4) \<Rightarrow>
          (let field = py_strip g1;
               ib_sec = py_strip g2;
               pages = py_strip g3;
               nts = py_strip g4
           in if field \<in> set header_labels then None
              else if py_in ''---'' field \<or> py_in ''==='' field then None
              else (case search_placeholder field of
                      None \<Rightarrow> None
                    | Some placeholder \<Rightarrow>
                        Some (placeholder,
                          \<lparr>field_description =
                              Some (strip_chars (\<lambda>c. c \<in> set '' -:'')
                                      (py_remove placeholder field)),
                            ib_section = Some ib_sec,
                            ib_pages = Some (parse_pages pages),
                            mapping_type = Some (determine_mapping_type ib_sec nts),
                            notes_val = Some nts\<rparr>))))"

definition parse_line :: "mapping_dict \<Rightarrow> string \<Rightarrow> mapping_dict" where
  "parse_line mappings line =
     (case row_entry line of
        None \<Rightarrow> mappings
      | Some (placeholder, info) \<Rightarrow> AList.update placeholder info mappings)"

text \<open>\<open>MappingParser.parse_mapping_file\<close> on the text read from the file.  The source has
  no \<open>raise\<close> on this path: the function returns the dictionary for every text.\<close>

definition parse_mapping_file :: "string \<Rightarrow> mapping_dict" where
  "parse_mapping_file content = foldl parse_line [] (py_split NL content)"

section \<open>content\_matcher.py\<close>

text \<open>\<open>str(p)\<close> for an \<open>int\<close>.\<close>

function digits_of_nat :: "nat \<Rightarrow> string" where
  "digits_of_nat n =
     (if n < 10 then [''0123456789'' ! n]
      else digits_of_nat (n div 10) @ [''0123456789'' ! (n mod 10)])"
  by pat_completeness auto
termination
  by (relation "measure id") auto

declare digits_of_nat.simps [simp del]

definition py_str :: "int \<Rightarrow> string" where
  "py_str i = (if i < 0 then CHR ''-'' # digits_of_nat (nat (- i)) else digits_of_nat (nat i))"

text \<open>
  The exceptions of the model are the \<open>KeyError\<close>s of \<open>mapping_info['k']\<close> on an absent
  key; \<open>str(e)\<close> of a \<open>KeyError\<close> is the \<open>repr\<close> of the key, in single quotes.
\<close>

datatype py_exception = KeyError string

definition exc_str :: "py_exception \<Rightarrow> string" where
  "exc_str e = (case e of KeyError k \<Rightarrow> [CHR 0x27] @ k @ [CHR 0x27])"

text \<open>\<open>d.get(key, default)\<close> on the value found under the key, if any.\<close>

definition dict_get :: "'a option \<Rightarrow> 'a \<Rightarrow> 'a" where
  "dict_get v dflt = (case v of None \<Rightarrow> dflt | Some x \<Rightarrow> x)"

text \<open>
  The index, as far as the matcher reads it: \<open>ib_index['sections']\<close> maps top-level
  section numbers to \<open>{title, pages, subsections}\<close>, and \<open>subsections\<close> maps section
  numbers to \<open>{title, pages}\<close>.  Every key is read with \<open>.get\<close> and may be absent.
\<close>

record subsection_data =
  sub_title :: "string option"
  sub_pages :: "int list option"

record section_data =
  title :: "string option"
  pages :: "int list option"
  subsections :: "(string \<times> subsection_data) list option"

record ib_index =
  sections :: "(string \<times> section_data) list option"

text \<open>
  What a resolution looks up, in order: each call of \<open>_get_section_content\<close> (a lookup in
  the index) and each call of \<open>_get_content_from_pages\<close> (a page lookup).  The functions
  below return their value together with the lookups they made.
\<close>

datatype lookup = SectionLookup string | PageLookup "int list"

text \<open>\<open>ContentMatcher._get_content_from_pages\<close>: the placeholder text of the first three
  pages.\<close>

definition get_content_from_pages :: "int list \<Rightarrow> string list \<times> lookup list" where
  "get_content_from_pages page_numbers =
     (map (\<lambda>p. ''[Content from page '' @ py_str p @ '']'') (take 3 page_numbers),
      [PageLookup page_numbers])"

text \<open>\<open>f"{title}\n\n" + "\n\n".join(content)\<close>\<close>

definition titled :: "string \<Rightarrow> string list \<Rightarrow> string" where
  "titled ttl content = ttl @ [NL, NL] @ py_join [NL, NL] content"

text \<open>
  The loop of \<open>_get_section_content\<close> over \<open>sections.items()\<close>.  A top-level section with
  the number sought is used if its pages give content; otherwise its subsections are
  consulted, and then the next top-level section.  The result is \<open>""\<close> when the loop ends.
\<close>

fun section_scan :: "string \<Rightarrow> (string \<times> section_data) list \<Rightarrow> string \<times> lookup list" where
  "section_scan section_number [] = ([], [])"
| "section_scan section_number ((top_section, top_data) # rest) =
     (let (c1, l1) = (if top_section = section_number
                      then get_content_from_pages (dict_get (pages top_data) [])
                      else ([], []))
      in if c1 \<noteq> [] then (titled (dict_get (title top_data) []) c1, l1)
         else (case map_of (dict_get (subsections top_data) []) section_number of
                 None \<Rightarrow>
                   (let (r, l) = section_scan section_number rest in (r, l1 @ l))
               | Some sub \<Rightarrow>
                   (let (c2, l2) = get_content_from_pages (dict_get (sub_pages sub) [])
                    in if c2 \<noteq> [] then (titled (dict_get (sub_title sub) []) c2, l1 @ l2)
                       else (let (r, l) = section_scan section_number rest
                             in (r, l1 @ l2 @ l)))))"

text \<open>\<open>ContentMatcher._get_section_content\<close>\<close>

definition get_section_content :: "ib_index \<Rightarrow> string \<Rightarrow> string \<times> lookup list" where
  "get_section_content idx section_number =
     (let (r, l) = section_scan section_number (dict_get (sections idx) [])
      in (r, SectionLookup section_number # l))"

text \<open>
  \<open>_extract_section_numbers\<close>: \<open>re.findall(r'\b(\d+(?:\.\d+)*)\b', ib_section)\<close>.

  \<open>dot_groups\<close> is the greedy \<open>(?:\.\d+)*\<close>: the digit runs taken and the rest of the text.
\<close>

function dot_groups :: "string \<Rightarrow> string list \<times> string" where
  "dot_groups [] = ([], [])"
| "dot_groups (c # r) =
     (if c = CHR ''.'' \<and> takeWhile is_digit r \<noteq> []
      then (case dot_groups (dropWhile is_digit r) of
              (gs, rest) \<Rightarrow> (takeWhile is_digit r # gs, rest))
      else ([], c # r))"
  by pat_completeness auto
termination
  by (relation "measure length") (auto simp: le_imp_less_Suc length_dropWhile_le)

text \<open>\<open>\b\<close> after a digit: the text ends, or a character that is not a word character
  follows.\<close>

definition at_boundary :: "string \<Rightarrow> bool" where
  "at_boundary rest = (case rest of [] \<Rightarrow> True | c # _ \<Rightarrow> \<not> is_word c)"

text \<open>
  The pattern matched at a position where \<open>\b\<close> holds before a digit: the group and the
  rest of the text.  Every digit run of a match is maximal (a digit after it would be
  neither a boundary nor a dot).  When the boundary fails after the last dotted group, the
  engine gives that group back and stops before its dot, where a boundary holds.
\<close>

definition match_section_number :: "string \<Rightarrow> (string \<times> string) option" where
  "match_section_number s =
     (let d0 = takeWhile is_digit s
      in if d0 = [] then None
         else (case dot_groups (dropWhile is_digit s) of
                 (gs, rest) \<Rightarrow>
                   if at_boundary rest then Some (py_join ''.'' (d0 # gs), rest)
                   else if gs \<noteq> []
                   then Some (py_join ''.'' (d0 # butlast gs), CHR ''.'' # last gs @ rest)
                   else None))"

lemma dot_groups_concat:
  "dot_groups s = (gs, rest) \<Longrightarrow> s = concat (map ((#) (CHR ''.'')) gs) @ rest"
proof (induction s arbitrary: gs rest rule: dot_groups.induct)
  case 1
  then show ?case by simp
next
  case (2 c r)
  show ?case
  proof (cases "c = CHR ''.'' \<and> takeWhile is_digit r \<noteq> []")
    case True
    obtain gs' rest' where rec: "dot_groups (dropWhile is_digit r) = (gs', rest')"
      by (cases "dot_groups (dropWhile is_digit r)")
    from "2.IH"[OF True rec]
    have ih: "dropWhile is_digit r = concat (map ((#) (CHR ''.'')) gs') @ rest'" .
    from "2.prems" True rec have gs: "gs = takeWhile is_digit r # gs'" and rest: "rest = rest'"
      by auto
    have "c # r = CHR ''.'' # takeWhile is_digit r @ dropWhile is_digit r"
      using True by simp
    with ih gs rest show ?thesis by simp
  next
    case False
    with "2.prems" show ?thesis by auto
  qed
qed

lemma dot_groups_rest_le: "dot_groups s = (gs, rest) \<Longrightarrow> length rest \<le> length s"
  by (drule dot_groups_concat) simp

lemma dot_groups_last_le:
  assumes "dot_groups s = (gs, rest)" "gs \<noteq> []"
  shows "Suc (length (last gs) + length rest) \<le> length s"
proof -
  from assms(2) have "gs = butlast gs @ [last gs]" by simp
  then have "concat (map ((#) (CHR ''.'')) gs) =
      concat (map ((#) (CHR ''.'')) (butlast gs)) @ CHR ''.'' # last gs"
    by (metis (no_types, lifting) append_Nil2 concat.simps concat_append list.simps(8,9) map_append)
  with dot_groups_concat[OF assms(1)] show ?thesis by simp
qed

lemma match_section_number_shorter:
  assumes "match_section_number s = Some (m, rest)"
  shows "length rest < length s"
proof -
  let ?d0 = "takeWhile is_digit s"
  obtain gs r where dg: "dot_groups (dropWhile is_digit s) = (gs, r)"
    by (cases "dot_groups (dropWhile is_digit s)")
  from assms have ne: "?d0 \<noteq> []"
    by (auto simp: match_section_number_def Let_def split: if_splits)
  have "length s = length ?d0 + length (dropWhile is_digit s)"
    by (metis length_append takeWhile_dropWhile_id)
  with ne have lt: "length (dropWhile is_digit s) < length s" by simp
  from assms dg ne consider "rest = r" | "gs \<noteq> []" "rest = CHR ''.'' # last gs @ r"
    by (auto simp: match_section_number_def Let_def split: if_splits)
  then show ?thesis
  proof cases
    case 1
    with dot_groups_rest_le[OF dg] lt show ?thesis by simp
  next
    case 2
    with dot_groups_last_le[OF dg] lt show ?thesis by simp
  qed
qed

text \<open>
  \<open>re.findall\<close>: the scan from left to right.  \<open>prev_word\<close> says whether the character
  before the current position is a word character; a match starts at a digit with a
  boundary before it, and the scan resumes where the match ended.
\<close>

function find_section_numbers :: "bool \<Rightarrow> string \<Rightarrow> string list" where
  "find_section_numbers prev_word [] = []"
| "find_section_numbers prev_word (c # cs) =
     (if is_digit c \<and> \<not> prev_word
      then (case match_section_number (c # cs) of
              Some (m, rest) \<Rightarrow> m # find_section_numbers True rest
            | None \<Rightarrow> find_section_numbers (is_word c) cs)
      else find_section_numbers (is_word c) cs)"
  by pat_completeness auto
termination
  by (relation "measure (\<lambda>(p, s). length s)")
     (auto dest: match_section_number_shorter)

definition extract_section_numbers :: "string \<Rightarrow> string list" where
  "extract_section_numbers ib_sec = find_section_numbers False ib_sec"

text \<open>\<open>re.sub(r'\s+', ' ', text)\<close>: every maximal run of whitespace becomes one space.\<close>

function collapse_ws :: "string \<Rightarrow> string" where
  "collapse_ws [] = []"
| "collapse_ws (c # cs) =
     (if is_space c then CHR '' '' # collapse_ws (dropWhile is_space cs)
      else c # collapse_ws cs)"
  by pat_completeness auto
termination
  by (relation "measure length") (auto simp: le_imp_less_Suc length_dropWhile_le)

text \<open>\<open>Page \d+ of \d+\<close> matched at the start of the text: what follows the match.\<close>

definition match_page_footer :: "string \<Rightarrow> string option" where
  "match_page_footer s =
     (if prefix ''Page '' s \<and> takeWhile is_digit (drop 5 s) \<noteq> [] \<and>
         prefix '' of '' (dropWhile is_digit (drop 5 s)) \<and>
         takeWhile is_digit (drop 4 (dropWhile is_digit (drop 5 s))) \<noteq> []
      then Some (dropWhile is_digit (drop 4 (dropWhile is_digit (drop 5 s))))
      else None)"

lemma match_page_footer_shorter:
  assumes "match_page_footer s = Some rest"
  shows "length rest < length s"
proof -
  from assms have p: "prefix ''Page '' s"
    and r: "rest = dropWhile is_digit (drop 4 (dropWhile is_digit (drop 5 s)))"
    by (auto simp: match_page_footer_def split: if_splits)
  from p have "5 \<le> length s" by (auto simp: prefix_def)
  then have "length (drop 5 s) < length s" by simp
  moreover have "length rest \<le> length (drop 4 (dropWhile is_digit (drop 5 s)))"
    unfolding r by (rule length_dropWhile_le)
  moreover have "length (drop 4 (dropWhile is_digit (drop 5 s)))
      \<le> length (dropWhile is_digit (drop 5 s))"
    by simp
  moreover have "length (dropWhile is_digit (drop 5 s)) \<le> length (drop 5 s)"
    by (rule length_dropWhile_le)
  ultimately show ?thesis by linarith
qed

text \<open>\<open>re.sub(r'Page \d+ of \d+', '', text)\<close>\<close>

function remove_page_footers :: "string \<Rightarrow> string" where
  "remove_page_footers [] = []"
| "remove_page_footers (c # cs) =
     (case match_page_footer (c # cs) of
        Some rest \<Rightarrow> remove_page_footers rest
      | None \<Rightarrow> c # remove_page_footers cs)"
  by pat_completeness auto
termination
  by (relation "measure length") (auto dest: match_page_footer_shorter)

text \<open>\<open>ContentMatcher._clean_text\<close>\<close>

definition clean_text :: "string \<Rightarrow> string" where
  "clean_text text =
     (if text = [] then []
      else py_strip (remove_page_footers (collapse_ws text)))"

text \<open>
  The loop over the section numbers, in \<open>direct_extract\<close> and in \<open>ai_extract\<close>: the
  contents found, each passed through \<open>fmt\<close>; sections without content add nothing.
\<close>

fun collect_sections ::
  "(string \<Rightarrow> string \<Rightarrow> string) \<Rightarrow> ib_index \<Rightarrow> string list \<Rightarrow> string list \<times> lookup list" where
  "collect_sections fmt idx [] = ([], [])"
| "collect_sections fmt idx (section_num # nums) =
     (let (section_content, l) = get_section_content idx section_num;
          (parts, ls) = collect_sections fmt idx nums
      in ((if section_content \<noteq> [] then [fmt section_num section_content] else []) @ parts,
          l @ ls))"

text \<open>\<open>ContentMatcher.direct_extract\<close>: the result or the exception raised, and the lookups
  made.\<close>

definition direct_extract :: "ib_index \<Rightarrow> mapping_info \<Rightarrow> (py_exception + string) \<times> lookup list" where
  "direct_extract idx info =
     (case ib_section info of
        None \<Rightarrow> (Inl (KeyError ''ib_section''), [])
      | Some ib_sec \<Rightarrow>
          (case ib_pages info of
             None \<Rightarrow> (Inl (KeyError ''ib_pages''), [])
           | Some pgs \<Rightarrow>
               (let (parts, l1) =
                      collect_sections (\<lambda>n c. c) idx (extract_section_numbers ib_sec);
                    (content_parts, l2) =
                      (if parts = [] \<and> pgs \<noteq> [] then get_content_from_pages pgs
                       else (parts, []))
                in if content_parts \<noteq> []
                   then (Inr (clean_text (py_join [NL, NL] content_parts)), l1 @ l2)
                   else (Inr ''[Content not found in IB]'', l1 @ l2))))"

text \<open>\<open>ContentMatcher._create_extraction_prompt\<close>\<close>

definition create_extraction_prompt :: "string \<Rightarrow> string \<Rightarrow> string \<Rightarrow> string \<Rightarrow> string" where
  "create_extraction_prompt field_name field_desc ib_content context =
     ''You are preparing a Drug Safety Report (DSR) for pralsetinib (GAVRETO, RO7499790).''
     @ [NL, NL] @
     ''Your task: Extract and synthesize content for the DSR field: '' @ field_name @ [NL] @
     ''Field purpose: '' @ field_desc @ [NL, NL] @
     ''Additional context: '' @ context @ [NL, NL] @
     ''Source content from Investigator Brochure:'' @ [NL] @
     ib_content @ [NL, NL] @
     ''Instructions:'' @ [NL] @
     ''1. Extract relevant information from the IB sections above'' @ [NL] @
     ''2. Synthesize into cohesive, well-written content appropriate for a DSR'' @ [NL] @
     ''3. Use formal medical/scientific writing style'' @ [NL] @
     ''4. Be concise but comprehensive'' @ [NL] @
     ''5. Do not include reference citations (we'' @ [CHR 0x27] @ ''ll add those separately)''
     @ [NL] @
     ''6. Do not use placeholder text or phrases like '' @ [CHR 0x22] @ ''based on the IB''
     @ [CHR 0x22] @ [NL] @
     ''7. If the IB content is insufficient, note what specific information is missing''
     @ [NL] @
     ''8. Present the information in a clear, professional manner suitable for regulatory submission''
     @ [NL, NL] @
     ''Output the extracted/synthesized content only, with no preamble or explanation.''"

text \<open>
  The synthesis gateway: \<open>client.chat.completions.create\<close> with the fixed model, system
  message and parameters, as a function of the user prompt.  \<open>Inr\<close> is the content of the
  first choice, \<open>Inl\<close> the message of an exception raised inside the \<open>try\<close> of
  \<open>ai_extract\<close>.  \<open>self.client\<close> is \<open>None\<close> when no API key was given.
\<close>

type_synonym gateway = "string \<Rightarrow> string + string"

text \<open>\<open>ContentMatcher.ai_extract\<close>\<close>

definition ai_extract ::
  "gateway option \<Rightarrow> ib_index \<Rightarrow> string \<Rightarrow> mapping_info \<Rightarrow> (py_exception + string) \<times> lookup list" where
  "ai_extract client idx field_name info =
     (case client of
        None \<Rightarrow> (Inr ''[AI extraction skipped - no API key provided]'', [])
      | Some call \<Rightarrow>
          (case ib_section info of
             None \<Rightarrow> (Inl (KeyError ''ib_section''), [])
           | Some ib_sec \<Rightarrow>
               (case ib_pages info of
                  None \<Rightarrow> (Inl (KeyError ''ib_pages''), [])
                | Some pgs \<Rightarrow>
                    (let nts = dict_get (notes_val info) [];
                         field_desc = dict_get (field_description info) [];
                         (src, l1) =
                           collect_sections (\<lambda>n c. ''### Section '' @ n @ [NL] @ c) idx
                             (extract_section_numbers ib_sec);
                         (source_content, l2) =
                           (if src = [] \<and> pgs \<noteq> [] then get_content_from_pages pgs
                            else (src, []))
                     in if source_content = []
                        then (Inr ''[No source content found in IB for AI extraction]'', l1 @ l2)
                        else (let joined = py_join [NL, NL] source_content;
                                  combined_source =
                                    (if length joined > 10000
                                     then take 10000 joined @ [NL, NL] @ ''[Content truncated...]''
                                     else joined);
                                  prompt = create_extraction_prompt field_name field_desc
                                             combined_source nts
                              in (case call prompt of
                                    Inr content \<Rightarrow> (Inr (py_strip content), l1 @ l2)
                                  | Inl msg \<Rightarrow>
                                      (Inr (''[AI extraction failed: '' @ msg @ '']'' @ [NL, NL] @
                                            ''Raw content:'' @ [NL] @
                                            take 500 combined_source @ ''...''),
                                       l1 @ l2)))))))"

text \<open>\<open>ContentMatcher.handle_unavailable_field\<close>: index and pages are not consulted.\<close>

definition handle_unavailable_field :: "mapping_info \<Rightarrow> string" where
  "handle_unavailable_field info =
     ''[DATA NOT AVAILABLE IN IB - REQUIRES: '' @
     dict_get (notes_val info) ''External data source required'' @ '']''"

text \<open>The body of the \<open>try\<close> in \<open>match_all_fields\<close>: the dispatch on the mapping type.\<close>

definition resolve_field ::
  "gateway option \<Rightarrow> ib_index \<Rightarrow> string \<Rightarrow> mapping_info \<Rightarrow> string \<Rightarrow>
   (py_exception + string) \<times> lookup list" where
  "resolve_field client idx field_name info mtype =
     (if mtype = ''direct_extract'' then direct_extract idx info
      else if mtype = ''synthesis_required'' then ai_extract client idx field_name info
      else (Inr (handle_unavailable_field info), []))"

text \<open>The \<open>except Exception\<close> branch: the content stored for a field whose resolution
  raised.\<close>

definition error_content :: "py_exception \<Rightarrow> string" where
  "error_content e = ''[ERROR EXTRACTING CONTENT: '' @ exc_str e @ '']''"

text \<open>
  The loop of \<open>match_all_fields\<close> over \<open>mapping_dict.items()\<close>, with the dictionary
  \<open>matched_content\<close> and the lookups made so far.  \<open>mapping_info['mapping_type']\<close> is read
  before the \<open>try\<close>: its \<open>KeyError\<close> leaves the loop and the function.  The counters and
  the printed report are not modelled.
\<close>

fun match_loop ::
  "gateway option \<Rightarrow> ib_index \<Rightarrow> mapping_dict \<Rightarrow> (string \<times> string) list \<Rightarrow> lookup list \<Rightarrow>
   py_exception + ((string \<times> string) list \<times> lookup list)" where
  "match_loop client idx [] matched_content lookups = Inr (matched_content, lookups)"
| "match_loop client idx ((field_name, info) # rest) matched_content lookups =
     (case mapping_type info of
        None \<Rightarrow> Inl (KeyError ''mapping_type'')
      | Some mtype \<Rightarrow>
          (case resolve_field client idx field_name info mtype of
             (Inr content, l) \<Rightarrow>
               match_loop client idx rest
                 (AList.update field_name content matched_content) (lookups @ l)
           | (Inl e, l) \<Rightarrow>
               match_loop client idx rest
                 (AList.update field_name (error_content e) matched_content) (lookups @ l)))"

text \<open>\<open>ContentMatcher.match_all_fields\<close>: the matched content and the lookups made, or the
  exception that escapes.\<close>

definition match_all_fields ::
  "gateway option \<Rightarrow> ib_index \<Rightarrow> mapping_dict \<Rightarrow>
   py_exception + ((string \<times> string) list \<times> lookup list)" where
  "match_all_fields client idx mapping = match_loop client idx mapping [] []"

section \<open>pdf\_indexer.py: section order\<close>

text \<open>
  \<open>int(x)\<close> for a part of a section number.  The section numbers of \<open>self.sections\<close> are
  found by \<open>(\d+(?:\.\d+)*\.?)\<close> and stripped of a trailing dot: their parts are digit
  runs.  \<open>None\<close> stands for any other text (\<open>int\<close> raises \<open>ValueError\<close> on it, or it is a
  literal with a sign, blanks or underscores, which a section number never has).
\<close>

definition py_int :: "string \<Rightarrow> int option" where
  "py_int x = (if x \<noteq> [] \<and> list_all is_digit x then Some (int_of_digits x) else None)"

text \<open>All values of a list of options, if none is missing.\<close>

fun those_all :: "'a option list \<Rightarrow> 'a list option" where
  "those_all [] = Some []"
| "those_all (None # xs) = None"
| "those_all (Some x # xs) = (case those_all xs of None \<Rightarrow> None | Some ys \<Rightarrow> Some (x # ys))"

text \<open>
  \<open>IBIndexer._section_sort_key\<close>: \<open>tuple(int(x) for x in section_num.split('.'))\<close>.  Python
  compares tuples lexicographically, a proper prefix being smaller: the order of
  \<open>int list\<close>.
\<close>

definition section_sort_key :: "string \<Rightarrow> int list option" where
  "section_sort_key section_num = those_all (map py_int (py_split (CHR ''.'') section_num))"

text \<open>An entry of \<open>self.sections\<close>, as \<open>identify_sections\<close> builds it.\<close>

record flat_section =
  fs_title :: string
  fs_pages :: "int list"
  fs_content :: "string list"

text \<open>The sort key of a section number that has one, and of an entry under that number.\<close>

definition sort_key_of :: "string \<Rightarrow> int list" where
  "sort_key_of section_num = (case section_sort_key section_num of None \<Rightarrow> [] | Some k \<Rightarrow> k)"

definition item_key :: "string \<times> 'a \<Rightarrow> int list" where
  "item_key e = sort_key_of (fst e)"

text \<open>
  \<open>sorted(self.sections.items(), key=lambda x: self._section_sort_key(x[0]))\<close>: a stable
  sort by the key; \<open>None\<close> when a key cannot be computed.
\<close>

definition sorted_items :: "(string \<times> 'a) list \<Rightarrow> (string \<times> 'a) list option" where
  "sorted_items items =
     (if list_all (\<lambda>e. section_sort_key (fst e) \<noteq> None) items
      then Some (sort_key item_key items)
      else None)"

text \<open>
  One iteration of the loop of \<open>_build_hierarchical_sections\<close>.  A section number with one
  part becomes a top-level entry; any other is stored under the entry of its first part,
  if that entry exists.  (The entries are built here, with their \<open>subsections\<close>.)
\<close>

definition add_section ::
  "(string \<times> section_data) list \<Rightarrow> string \<times> flat_section \<Rightarrow> (string \<times> section_data) list" where
  "add_section hierarchical e =
     (let section_num = fst e;
          section_data = snd e;
          parts = py_split (CHR ''.'') section_num
      in if length parts = 1
         then AList.update section_num
                \<lparr>title = Some (fs_title section_data), pages = Some (fs_pages section_data),
                 subsections = Some []\<rparr> hierarchical
         else (case parts of
                 [] \<Rightarrow> hierarchical
               | parent # _ \<Rightarrow>
                   (case map_of hierarchical parent of
                      None \<Rightarrow> hierarchical
                    | Some pdata \<Rightarrow>
                        AList.update parent
                          (pdata\<lparr>subsections :=
                             Some (AList.update section_num
                                     \<lparr>sub_title = Some (fs_title section_data),
                                      sub_pages = Some (fs_pages section_data)\<rparr>
                                     (dict_get (subsections pdata) []))\<rparr>)
                          hierarchical)))"

text \<open>\<open>IBIndexer._build_hierarchical_sections\<close>\<close>

definition build_hierarchical_sections ::
  "(string \<times> flat_section) list \<Rightarrow> (string \<times> section_data) list option" where
  "build_hierarchical_sections secs =
     (case sorted_items secs of
        None \<Rightarrow> None
      | Some items \<Rightarrow> Some (foldl add_section [] items))"

section \<open>Notions used by the properties of the parser\<close>

text \<open>The placeholder pattern \<open>[INSERT_<A-Z0-9_>+]\<close>, stated on its own.\<close>

definition is_placeholder :: "string \<Rightarrow> bool" where
  "is_placeholder k =
     (\<exists>body. k = ''[INSERT_'' @ body @ '']'' \<and> body \<noteq> [] \<and>
        list_all (\<lambda>c. is_upper c \<or> is_digit c \<or> c = CHR ''_'') body)"

definition mapping_types :: "string list" where
  "mapping_types = [''direct_extract'', ''synthesis_required'', ''unavailable'']"

definition entry_ok :: "string \<times> mapping_info \<Rightarrow> bool" where
  "entry_ok e =
     (is_placeholder (fst e) \<and>
      (\<exists>t. mapping_type (snd e) = Some t \<and> t \<in> set mapping_types) \<and>
      (\<exists>ps. ib_pages (snd e) = Some ps \<and> sorted_wrt (<) ps))"

text \<open>The parseable rows of a specification: the entries its lines contribute, in order.\<close>

definition parseable_rows :: "string \<Rightarrow> (string \<times> mapping_info) list" where
  "parseable_rows content = List.map_filter row_entry (py_split NL content)"

text \<open>
  The contract of the parse operation as the specification words it (not taken from the
  source): it fails with \<open>MalformedSpecification\<close> exactly when the input has zero
  parseable rows, and returns the mapping otherwise.
\<close>

datatype parse_error = MalformedSpecification

definition parse_contract_of_spec :: "string \<Rightarrow> parse_error + mapping_dict" where
  "parse_contract_of_spec content =
     (if parseable_rows content = [] then Inl MalformedSpecification
      else Inr (parse_mapping_file content))"

section \<open>Notions used by the properties of the matcher\<close>

text \<open>What the loop of \<open>match_all_fields\<close> stores for a field that has a mapping type, the
  lookups its resolution makes, and one step of the loop on the dictionary.\<close>

definition field_content :: "gateway option \<Rightarrow> ib_index \<Rightarrow> string \<Rightarrow> mapping_info \<Rightarrow> string" where
  "field_content client idx k info =
     (case mapping_type info of
        None \<Rightarrow> []
      | Some t \<Rightarrow>
          (case fst (resolve_field client idx k info t) of
             Inr content \<Rightarrow> content
           | Inl e \<Rightarrow> error_content e))"

definition field_lookups :: "gateway option \<Rightarrow> ib_index \<Rightarrow> string \<Rightarrow> mapping_info \<Rightarrow> lookup list" where
  "field_lookups client idx k info =
     (case mapping_type info of
        None \<Rightarrow> []
      | Some t \<Rightarrow> snd (resolve_field client idx k info t))"

definition store_field ::
  "gateway option \<Rightarrow> ib_index \<Rightarrow> (string \<times> string) list \<Rightarrow> string \<times> mapping_info \<Rightarrow>
   (string \<times> string) list" where
  "store_field client idx acc e = AList.update (fst e) (field_content client idx (fst e) (snd e)) acc"

section \<open>Notions used by the properties of the section order\<close>

text \<open>
  The invariant of the loop of \<open>_build_hierarchical_sections\<close>: the keys of the hierarchy,
  and the keys of every \<open>subsections\<close> dictionary in it, occur in the order of the section
  numbers processed so far.
\<close>

definition hier_inv :: "(string \<times> section_data) list \<Rightarrow> string list \<Rightarrow> bool" where
  "hier_inv h pre =
     (subseq (map fst h) pre \<and>
      list_all (\<lambda>e. subseq (map fst (dict_get (subsections (snd e)) [])) pre) h)"

section \<open>Example inputs\<close>

definition example_row :: string where
  "example_row = ''| [INSERT_INDICATION] Indication | Section 1.2 | 12-14 | |''"

definition example_index :: ib_index where
  "example_index =
     \<lparr>sections = Some
        [(''1'', \<lparr>title = Some ''SUMMARY'', pages = Some [10],
                 subsections = Some
                   [(''1.2'', \<lparr>sub_title = Some ''Indication'',
                                sub_pages = Some [12, 13]\<rparr>)]\<rparr>)]\<rparr>"

text \<open>Three fields: a direct one whose record lacks \<open>ib_section\<close>, an unavailable one,
  and a synthesis one.\<close>

definition example_mapping :: mapping_dict where
  "example_mapping =
     [(''[INSERT_A]'',
       \<lparr>field_description = Some ''A'', ib_section = None, ib_pages = Some [],
        mapping_type = Some ''direct_extract'', notes_val = Some []\<rparr>),
      (''[INSERT_B]'',
       \<lparr>field_description = Some ''B'', ib_section = Some ''N/A'', ib_pages = Some [],
        mapping_type = Some ''unavailable'', notes_val = Some ''Safety database query''\<rparr>),
      (''[INSERT_C]'',
       \<lparr>field_description = Some ''C'', ib_section = Some ''Sections 5.1 and 5.2'',
        ib_pages = Some [40], mapping_type = Some ''synthesis_required'',
        notes_val = Some []\<rparr>)]"

text \<open>Two fields, the first with a record that has no \<open>mapping_type\<close> key.\<close>

definition untyped_mapping :: mapping_dict where
  "untyped_mapping =
     [(''[INSERT_A]'',
       \<lparr>field_description = Some ''A'', ib_section = Some ''Section 1.2'',
        ib_pages = Some [12], mapping_type = None, notes_val = Some []\<rparr>),
      (''[INSERT_B]'',
       \<lparr>field_description = Some ''B'', ib_section = Some ''N/A'', ib_pages = Some [],
        mapping_type = Some ''unavailable'', notes_val = Some ''Safety database query''\<rparr>)]"

definition unavailable_row :: string where
  "unavailable_row = ''| [INSERT_X] Exposure data | N/A | - | |''"

definition example_sections :: "(string \<times> flat_section) list" where
  "example_sections =
     [(''2'', \<lparr>fs_title = ''INTRODUCTION'', fs_pages = [20], fs_content = []\<rparr>),
      (''1.10'', \<lparr>fs_title = ''DOSING'', fs_pages = [15], fs_content = []\<rparr>),
      (''1.9'', \<lparr>fs_title = ''SAFETY'', fs_pages = [14], fs_content = []\<rparr>),
      (''1'', \<lparr>fs_title = ''SUMMARY'', fs_pages = [10], fs_content = []\<rparr>)]"

section \<open>Facts about the string operations\<close>

lemma py_in_iff: "py_in sub s \<longleftrightarrow> (\<exists>pre suf. s = pre @ sub @ suf)"
proof (induction s)
  case Nil
  then show ?case by auto
next
  case (Cons c cs)
  show ?case
  proof
    assume "py_in sub (c # cs)"
    then consider "prefix sub (c # cs)" | "py_in sub cs" by auto
    then show "\<exists>pre suf. c # cs = pre @ sub @ suf"
    proof cases
      case 1
      then obtain suf where "c # cs = sub @ suf" by (auto simp: prefix_def)
      then have "c # cs = [] @ sub @ suf" by simp
      then show ?thesis by blast
    next
      case 2
      with Cons.IH obtain pre suf where "cs = pre @ sub @ suf" by blast
      then have "c # cs = (c # pre) @ sub @ suf" by simp
      then show ?thesis by blast
    qed
  next
    assume "\<exists>pre suf. c # cs = pre @ sub @ suf"
    then obtain pre suf where eq: "c # cs = pre @ sub @ suf" by blast
    show "py_in sub (c # cs)"
    proof (cases pre)
      case Nil
      with eq have "prefix sub (c # cs)" by (simp add: prefix_def)
      then show ?thesis by simp
    next
      case (Cons p pre')
      with eq have "cs = pre' @ sub @ suf" by simp
      with Cons.IH have "py_in sub cs" by blast
      then show ?thesis by simp
    qed
  qed
qed


lemma py_in_lower_iff:
  "py_in kw (py_lower s) \<longleftrightarrow> (\<exists>pre mid suf. s = pre @ mid @ suf \<and> py_lower mid = kw)"
  unfolding py_in_iff py_lower_def
  by (metis map_eq_append_conv)

section \<open>Strategy classification\<close>

text \<open>
  Claim C1.  If the section-reference cell or the notes cell contains, after lower-casing,
  any of the unavailable keywords, the row is classified \<open>unavailable\<close>, whatever synthesis
  keyword or separator is present as well; in particular it is never
  \<open>synthesis_required\<close>.  This covers a row whose notes contain "summarize" and whose
  section reference contains "external source".
\<close>

theorem unavailable_precedence:
  assumes "\<exists>keyword \<in> set unavailable_keywords.
             py_in keyword (py_lower ib_sec) \<or> py_in keyword (py_lower nts)"
  shows "determine_mapping_type ib_sec nts = ''unavailable'' \<and>
         determine_mapping_type ib_sec nts \<noteq> ''synthesis_required''"
  using assms by (auto simp: determine_mapping_type_def Let_def list_ex_iff)

theorem unavailable_precedence_witness:
  "py_in ''summarize'' (py_lower ''Summarize the safety data'') \<and>
   py_in ''external source'' (py_lower ''See External Source'') \<and>
   determine_mapping_type ''See External Source'' ''Summarize the safety data''
     = ''unavailable'' \<and>
   determine_mapping_type ''See External Source'' ''Summarize the safety data''
     \<noteq> ''synthesis_required''"
proof -
  have kw: "''external source'' \<in> set unavailable_keywords"
    by (simp add: unavailable_keywords_def)
  have s: "py_in ''summarize'' (py_lower ''Summarize the safety data'')"
    by code_simp
  have e: "py_in ''external source'' (py_lower ''See External Source'')"
    by code_simp
  from kw e have "\<exists>keyword \<in> set unavailable_keywords.
      py_in keyword (py_lower ''See External Source'') \<or>
      py_in keyword (py_lower ''Summarize the safety data'')"
    by blast
  from unavailable_precedence [OF this] s e show ?thesis by blast
qed



text \<open>The test for "and" is a substring test: a word that contains it counts.\<close>

lemma and_inside_a_word:
  "determine_mapping_type ''Section 3 Standard dosing'' [] = ''synthesis_required''"
  by code_simp

section \<open>Page lists\<close>

lemma parse_pages_strict: "sorted_wrt (<) (parse_pages s)"
  by (simp add: parse_pages_def strict_sorted_iff)

section \<open>The parsed mapping\<close>

lemma match_placeholder_at_shape:
  assumes "match_placeholder_at s = Some p"
  shows "is_placeholder p"
proof -
  let ?body = "takeWhile is_ph_char (drop 8 s)"
  from assms have p: "p = ''[INSERT_'' @ ?body @ '']''" and ne: "?body \<noteq> []"
    by (auto simp: match_placeholder_at_def Let_def split: if_splits)
  have "list_all is_ph_char ?body"
    by (auto simp: list_all_iff dest: set_takeWhileD)
  then have "list_all (\<lambda>c. is_upper c \<or> is_digit c \<or> c = CHR ''_'') ?body"
    by (simp add: list_all_iff is_ph_char_def)
  with p ne show ?thesis unfolding is_placeholder_def by blast
qed

lemma search_placeholder_shape:
  "search_placeholder s = Some p \<Longrightarrow> is_placeholder p"
  by (induction s) (auto split: option.splits dest: match_placeholder_at_shape)

lemma determine_mapping_type_range:
  "determine_mapping_type a b \<in> set mapping_types"
  by (simp add: determine_mapping_type_def Let_def mapping_types_def)

lemma row_entry_ok:
  assumes "row_entry line = Some e"
  shows "entry_ok e"
proof -
  from assms obtain g1 g2 g3 g4 ph where
    ph: "search_placeholder (py_strip g1) = Some ph" and
    e: "fst e = ph"
       "mapping_type (snd e) = Some (determine_mapping_type (py_strip g2) (py_strip g4))"
       "ib_pages (snd e) = Some (parse_pages (py_strip g3))"
    unfolding row_entry_def Let_def
    by (auto split: option.splits if_splits prod.splits)
  show ?thesis
    unfolding entry_ok_def
    using search_placeholder_shape[OF ph] e determine_mapping_type_range parse_pages_strict
    by simp
qed

lemma update_set: "set (AList.update k v al) \<subseteq> insert (k, v) (set al)"
  by (induction al) auto

lemma parse_line_ok:
  assumes "list_all entry_ok m"
  shows "list_all entry_ok (parse_line m line)"
proof (cases "row_entry line")
  case None
  then show ?thesis using assms by (simp add: parse_line_def)
next
  case (Some e)
  then have ok: "entry_ok e" by (rule row_entry_ok)
  obtain k v where kv: "e = (k, v)" by (cases e)
  have "set (AList.update k v m) \<subseteq> insert (k, v) (set m)" by (rule update_set)
  with ok kv assms have "list_all entry_ok (AList.update k v m)"
    unfolding list_all_iff by blast
  with Some kv show ?thesis by (simp add: parse_line_def)
qed

lemma foldl_parse_line_ok:
  "list_all entry_ok m \<Longrightarrow> list_all entry_ok (foldl parse_line m ls)"
  by (induction ls arbitrary: m) (simp_all add: parse_line_ok)

lemma parse_line_nonempty: "m \<noteq> [] \<Longrightarrow> parse_line m line \<noteq> []"
  by (auto simp: parse_line_def split: option.splits)

lemma foldl_parse_line_nonempty: "m \<noteq> [] \<Longrightarrow> foldl parse_line m ls \<noteq> []"
  by (induction ls arbitrary: m) (simp_all add: parse_line_nonempty)

lemma foldl_parse_line_map_of:
  "map_of (foldl parse_line m ls) = map_of (rev (List.map_filter row_entry ls) @ m)"
proof (induction ls arbitrary: m)
  case Nil
  show ?case by simp
next
  case (Cons l ls)
  show ?case
  proof (cases "row_entry l")
    case None
    then show ?thesis using Cons[of m] by (simp add: parse_line_def)
  next
    case (Some e)
    obtain k v where kv: "e = (k, v)" by (cases e)
    have step: "map_of (parse_line m l) = (map_of m)(k \<mapsto> v)"
      using Some kv by (simp add: parse_line_def update_conv')
    have "map_of (foldl parse_line (parse_line m l) ls) =
          map_of (rev (List.map_filter row_entry ls) @ parse_line m l)"
      by (rule Cons)
    then show ?thesis using Some kv step by simp
  qed
qed

lemma parse_mapping_file_map_of:
  "map_of (parse_mapping_file content) = map_of (rev (parseable_rows content))"
  by (simp add: parse_mapping_file_def parseable_rows_def foldl_parse_line_map_of)

lemma parse_mapping_file_empty_iff:
  "parse_mapping_file content = [] \<longleftrightarrow> parseable_rows content = []"
proof -
  have "dom (map_of (parse_mapping_file content)) = dom (map_of (rev (parseable_rows content)))"
    by (simp only: parse_mapping_file_map_of)
  then have "fst ` set (parse_mapping_file content) = fst ` set (parseable_rows content)"
    by (simp add: dom_map_of_conv_image_fst)
  then show ?thesis by (metis image_is_empty set_empty)
qed


lemma parse_mapping_file_ok: "list_all entry_ok (parse_mapping_file content)"
  unfolding parse_mapping_file_def by (rule foldl_parse_line_ok) simp

text \<open>
  Claim C10.  Whatever the text of the specification, every key of the parsed mapping
  has the form \<open>[INSERT_\<close> body \<open>]\<close> with a non-empty body of upper-case letters, digits
  and underscores, every record carries one of the three mapping types, and every record's
  page list is strictly ascending (hence free of duplicates).
\<close>

theorem parsed_mapping_invariant:
  "\<forall>(k, info) \<in> set (parse_mapping_file content).
     is_placeholder k \<and>
     (\<exists>t. mapping_type info = Some t \<and>
          (t = ''direct_extract'' \<or> t = ''synthesis_required'' \<or> t = ''unavailable'')) \<and>
     (\<exists>ps. ib_pages info = Some ps \<and> sorted_wrt (<) ps \<and> distinct ps)"
  using parse_mapping_file_ok [of content]
  by (auto simp: list_all_iff entry_ok_def mapping_types_def strict_sorted_iff)


lemma example_row_parsed: "parse_mapping_file example_row =
   [(''[INSERT_INDICATION]'',
     \<lparr>field_description = Some ''Indication'', ib_section = Some ''Section 1.2'',
      ib_pages = Some [12, 13, 14], mapping_type = Some ''direct_extract'',
      notes_val = Some []\<rparr>)]"
  by code_simp

theorem parsed_mapping_invariant_witness:
  "(''[INSERT_INDICATION]'',
     \<lparr>field_description = Some ''Indication'', ib_section = Some ''Section 1.2'',
      ib_pages = Some [12, 13, 14], mapping_type = Some ''direct_extract'',
      notes_val = Some []\<rparr>) \<in> set (parse_mapping_file example_row) \<and>
   is_placeholder ''[INSERT_INDICATION]'' \<and> sorted_wrt (<) [12, 13, 14 :: int]"
proof -
  have mem: "(''[INSERT_INDICATION]'',
     \<lparr>field_description = Some ''Indication'', ib_section = Some ''Section 1.2'',
      ib_pages = Some [12, 13, 14], mapping_type = Some ''direct_extract'',
      notes_val = Some []\<rparr>) \<in> set (parse_mapping_file example_row)"
    by code_simp
  from parsed_mapping_invariant [of example_row] mem show ?thesis by fastforce
qed

text \<open>
  Claim C4, as stated: the parse fails with \<open>MalformedSpecification\<close> exactly on zero
  parseable rows.  The source has no such failure: on the empty text it returns the empty
  dictionary, where the contract of the specification demands an error.
\<close>

theorem parse_contract_counterexample:
  "parseable_rows [] = [] \<and> parse_mapping_file [] = [] \<and>
   parse_contract_of_spec [] \<noteq> Inr (parse_mapping_file [])"
proof -
  have rows: "parseable_rows [] = []"
    by (simp add: parseable_rows_def row_entry_def match_table_row_def)
  have code: "parse_mapping_file [] = []"
    by (simp add: parse_mapping_file_def parse_line_def row_entry_def match_table_row_def)
  from rows have "parse_contract_of_spec [] = Inl MalformedSpecification"
    by (simp add: parse_contract_of_spec_def)
  with rows code show ?thesis by simp
qed

text \<open>
  Claim C4, amended.  The parse returns a dictionary for every text.  The dictionary is
  empty exactly when the text has zero parseable rows, and it maps each placeholder of a
  parseable row to the record of the last row that carries it.
\<close>

theorem parse_total:
  "(parse_mapping_file content = [] \<longleftrightarrow> parseable_rows content = []) \<and>
   map_of (parse_mapping_file content) = map_of (rev (parseable_rows content))"
  using parse_mapping_file_empty_iff parse_mapping_file_map_of by blast

section \<open>The batch of the matcher\<close>

lemma match_loop_Inr:
  assumes "list_all (\<lambda>e. mapping_type (snd e) \<noteq> None) m"
  shows "match_loop client idx m matched lookups =
           Inr (foldl (store_field client idx) matched m,
                lookups @ concat (map (\<lambda>e. field_lookups client idx (fst e) (snd e)) m))"
  using assms
proof (induction m arbitrary: matched lookups)
  case Nil
  show ?case by simp
next
  case (Cons e m)
  obtain k info where e: "e = (k, info)" by (cases e)
  from Cons.prems e obtain t where t: "mapping_type info = Some t" by auto
  from Cons.prems have rest: "list_all (\<lambda>e. mapping_type (snd e) \<noteq> None) m" by simp
  obtain r l where r: "resolve_field client idx k info t = (r, l)"
    by (cases "resolve_field client idx k info t")
  show ?case
  proof (cases r)
    case (Inl ex)
    with e t r Cons.IH[OF rest] show ?thesis
      by (simp add: store_field_def field_content_def field_lookups_def)
  next
    case (Inr c)
    with e t r Cons.IH[OF rest] show ?thesis
      by (simp add: store_field_def field_content_def field_lookups_def)
  qed
qed

lemma foldl_store_keys:
  assumes "distinct (map fst m)" "set (map fst m) \<inter> set (map fst acc) = {}"
  shows "map fst (foldl (store_field client idx) acc m) = map fst acc @ map fst m"
  using assms
proof (induction m arbitrary: acc)
  case Nil
  show ?case by simp
next
  case (Cons e m)
  let ?acc = "store_field client idx acc e"
  from Cons.prems have notin: "fst e \<notin> set (map fst acc)" by auto
  then have keys: "map fst ?acc = map fst acc @ [fst e]"
    by (simp add: store_field_def update_keys)
  from Cons.prems have d: "distinct (map fst m)" by simp
  from Cons.prems keys have disj: "set (map fst m) \<inter> set (map fst ?acc) = {}" by auto
  from Cons.IH[OF d disj] keys show ?case by simp
qed

lemma foldl_store_other:
  "k \<notin> fst ` set m \<Longrightarrow> map_of (foldl (store_field client idx) acc m) k = map_of acc k"
  by (induction m arbitrary: acc) (auto simp: store_field_def update_conv')

lemma foldl_store_map_of:
  assumes "distinct (map fst m)" "(k, info) \<in> set m"
  shows "map_of (foldl (store_field client idx) acc m) k = Some (field_content client idx k info)"
  using assms
proof (induction m arbitrary: acc)
  case Nil
  then show ?case by simp
next
  case (Cons e m)
  show ?case
  proof (cases "e = (k, info)")
    case True
    with Cons.prems have "k \<notin> fst ` set m" by auto
    then have "map_of (foldl (store_field client idx) (store_field client idx acc e) m) k
        = map_of (store_field client idx acc e) k"
      by (rule foldl_store_other)
    moreover have "map_of (store_field client idx acc e) k
        = Some (field_content client idx k info)"
      using True by (simp add: store_field_def update_conv')
    ultimately show ?thesis by simp
  next
    case False
    with Cons.prems have "(k, info) \<in> set m" "distinct (map fst m)" by auto
    from Cons.IH[OF this(2) this(1)] show ?thesis by simp
  qed
qed

text \<open>
  The batch on a dictionary (distinct placeholders) of records that each carry their
  mapping type, for every index and every gateway: \<open>match_all_fields\<close> returns normally;
  the result has exactly the placeholders of the mapping, in its order; a field whose
  resolution raises is stored as \<open>[ERROR EXTRACTING CONTENT: <message>]\<close>; and every
  field, before or after a failing one, is stored with the outcome of its own resolution.
  The other keys of a record may be absent: that is how a resolution raises (\<open>KeyError\<close>).
\<close>

lemma match_all_fields_total:
  assumes typed: "\<forall>(k, info) \<in> set m. mapping_type info \<noteq> None"
      and keys: "distinct (map fst m)"
  shows "\<exists>matched lookups.
           match_all_fields client idx m = Inr (matched, lookups) \<and>
           map fst matched = map fst m \<and>
           (\<forall>(k, info) \<in> set m. \<forall>t l.
              mapping_type info = Some t \<longrightarrow>
                (\<forall>e. resolve_field client idx k info t = (Inl e, l) \<longrightarrow>
                   map_of matched k = Some (''[ERROR EXTRACTING CONTENT: '' @ exc_str e @ '']'')) \<and>
                (\<forall>c. resolve_field client idx k info t = (Inr c, l) \<longrightarrow>
                   map_of matched k = Some c))"
proof -
  let ?matched = "foldl (store_field client idx) [] m"
  let ?lookups = "concat (map (\<lambda>e. field_lookups client idx (fst e) (snd e)) m)"
  from typed have "list_all (\<lambda>e. mapping_type (snd e) \<noteq> None) m"
    by (auto simp: list_all_iff)
  then have run: "match_all_fields client idx m = Inr (?matched, ?lookups)"
    by (simp add: match_all_fields_def match_loop_Inr)
  have order: "map fst ?matched = map fst m"
    using foldl_store_keys[OF keys, of "[]" client idx] by simp
  have content: "map_of ?matched k = Some (field_content client idx k info)"
    if "(k, info) \<in> set m" for k info
    using foldl_store_map_of[OF keys that] .
  have "\<forall>(k, info) \<in> set m. \<forall>t l.
              mapping_type info = Some t \<longrightarrow>
                (\<forall>e. resolve_field client idx k info t = (Inl e, l) \<longrightarrow>
                   map_of ?matched k = Some (''[ERROR EXTRACTING CONTENT: '' @ exc_str e @ '']'')) \<and>
                (\<forall>c. resolve_field client idx k info t = (Inr c, l) \<longrightarrow>
                   map_of ?matched k = Some c)"
    using content by (auto simp: field_content_def error_content_def)
  with run order show ?thesis by blast
qed

lemma match_all_fields_total_example:
  "list_all (\<lambda>(k, info). mapping_type info \<noteq> None) example_mapping \<and>
   distinct (map fst example_mapping) \<and>
   resolve_field None example_index ''[INSERT_A]'' (snd (example_mapping ! 0)) ''direct_extract''
     = (Inl (KeyError ''ib_section''), []) \<and>
   (\<exists>matched lookups.
      match_all_fields None example_index example_mapping = Inr (matched, lookups) \<and>
      map fst matched = [''[INSERT_A]'', ''[INSERT_B]'', ''[INSERT_C]''] \<and>
      map_of matched ''[INSERT_A]'' =
        Some (''[ERROR EXTRACTING CONTENT: '' @ [CHR 0x27] @ ''ib_section'' @ [CHR 0x27] @ '']'') \<and>
      map_of matched ''[INSERT_B]'' =
        Some ''[DATA NOT AVAILABLE IN IB - REQUIRES: Safety database query]'' \<and>
      map_of matched ''[INSERT_C]'' = Some ''[AI extraction skipped - no API key provided]'')"
proof -
  have typed: "\<forall>(k, info) \<in> set example_mapping. mapping_type info \<noteq> None"
    by (simp add: example_mapping_def)
  have keys: "distinct (map fst example_mapping)"
    by (simp add: example_mapping_def)
  have a: "(''[INSERT_A]'', snd (example_mapping ! 0)) \<in> set example_mapping"
    by (simp add: example_mapping_def)
  have ta: "mapping_type (snd (example_mapping ! 0)) = Some ''direct_extract''"
    by (simp add: example_mapping_def)
  have ra: "resolve_field None example_index ''[INSERT_A]'' (snd (example_mapping ! 0)) ''direct_extract''
     = (Inl (KeyError ''ib_section''), [])"
    by (simp add: example_mapping_def resolve_field_def direct_extract_def)
  have b: "(''[INSERT_B]'', snd (example_mapping ! 1)) \<in> set example_mapping"
    by (simp add: example_mapping_def)
  have tb: "mapping_type (snd (example_mapping ! 1)) = Some ''unavailable''"
    by (simp add: example_mapping_def)
  have rb: "resolve_field None example_index ''[INSERT_B]'' (snd (example_mapping ! 1)) ''unavailable''
     = (Inr ''[DATA NOT AVAILABLE IN IB - REQUIRES: Safety database query]'', [])"
    by (simp add: example_mapping_def resolve_field_def handle_unavailable_field_def dict_get_def)
  have c: "(''[INSERT_C]'', snd (example_mapping ! 2)) \<in> set example_mapping"
    by (simp add: example_mapping_def)
  have tc: "mapping_type (snd (example_mapping ! 2)) = Some ''synthesis_required''"
    by (simp add: example_mapping_def)
  have rc: "resolve_field None example_index ''[INSERT_C]'' (snd (example_mapping ! 2)) ''synthesis_required''
     = (Inr ''[AI extraction skipped - no API key provided]'', [])"
    by (simp add: example_mapping_def resolve_field_def ai_extract_def)
  have ks: "map fst example_mapping = [''[INSERT_A]'', ''[INSERT_B]'', ''[INSERT_C]'']"
    by (simp add: example_mapping_def)
  from match_all_fields_total [OF typed keys, of None example_index]
  obtain matched lookups where
    run: "match_all_fields None example_index example_mapping = Inr (matched, lookups)" and
    order: "map fst matched = map fst example_mapping" and
    each: "\<forall>(k, info) \<in> set example_mapping. \<forall>t l.
              mapping_type info = Some t \<longrightarrow>
                (\<forall>e. resolve_field None example_index k info t = (Inl e, l) \<longrightarrow>
                   map_of matched k = Some (''[ERROR EXTRACTING CONTENT: '' @ exc_str e @ '']'')) \<and>
                (\<forall>c. resolve_field None example_index k info t = (Inr c, l) \<longrightarrow>
                   map_of matched k = Some c)"
    by blast
  from each a ta ra have ma: "map_of matched ''[INSERT_A]'' =
        Some (''[ERROR EXTRACTING CONTENT: '' @ exc_str (KeyError ''ib_section'') @ '']'')"
    by blast
  from each b tb rb have mb: "map_of matched ''[INSERT_B]'' =
        Some ''[DATA NOT AVAILABLE IN IB - REQUIRES: Safety database query]''"
    by blast
  from each c tc rc have mc: "map_of matched ''[INSERT_C]'' =
        Some ''[AI extraction skipped - no API key provided]''"
    by blast
  have typed': "list_all (\<lambda>(k, info). mapping_type info \<noteq> None) example_mapping"
    by (simp add: example_mapping_def)
  from ma have ma': "map_of matched ''[INSERT_A]'' =
        Some (''[ERROR EXTRACTING CONTENT: '' @ [CHR 0x27] @ ''ib_section'' @ [CHR 0x27] @ '']'')"
    by (simp add: exc_str_def)
  from typed' keys ra run order ks ma' mb mc show ?thesis by auto
qed

text \<open>
  Every mapping that \<open>parse_mapping_file\<close> returns is such a dictionary of typed records:
  on it the matcher returns normally, whatever the text of the specification.  On a record
  without the \<open>mapping_type\<close> key the exception leaves \<open>match_all_fields\<close>.
\<close>

lemma parse_line_distinct:
  "distinct (map fst m) \<Longrightarrow> distinct (map fst (parse_line m line))"
  by (auto simp: parse_line_def distinct_update split: option.splits)

lemma parse_mapping_file_distinct: "distinct (map fst (parse_mapping_file content))"
proof -
  have "distinct (map fst m) \<Longrightarrow> distinct (map fst (foldl parse_line m ls))" for m ls
    by (induction ls arbitrary: m) (simp_all add: parse_line_distinct)
  from this[of "[]"] show ?thesis by (simp add: parse_mapping_file_def)
qed

lemma parse_mapping_file_typed:
  "list_all (\<lambda>e. mapping_type (snd e) \<noteq> None) (parse_mapping_file content)"
  using parse_mapping_file_ok[of content]
  by (auto simp: list_all_iff entry_ok_def)

lemma match_parsed_mapping:
  "\<exists>matched lookups.
     match_all_fields client idx (parse_mapping_file content) = Inr (matched, lookups) \<and>
     map fst matched = map fst (parse_mapping_file content)"
  using match_loop_Inr[OF parse_mapping_file_typed, of client idx content "[]" "[]"]
    foldl_store_keys[OF parse_mapping_file_distinct, of content "[]" client idx]
  by (simp add: match_all_fields_def)

lemma missing_mapping_type_escapes:
  "mapping_type info = None \<Longrightarrow>
   match_all_fields client idx ((k, info) # rest) = Inl (KeyError ''mapping_type'')"
  by (simp add: match_all_fields_def)

text \<open>
  Claim C2 at a mapping whose first record has no \<open>mapping_type\<close> key.  The claim
  promises a normal return for every mapping, with a failing field stored as
  \<open>[ERROR EXTRACTING CONTENT: <message>]\<close> and the later fields still processed.
  \<open>mapping_info['mapping_type']\<close> is read one statement before the \<open>try\<close>, so its
  \<open>KeyError\<close> leaves \<open>match_all_fields\<close>: nothing is returned and the second field is
  never processed.  The \<open>KeyError\<close> of an absent \<open>ib_section\<close>, raised inside the \<open>try\<close>,
  is caught and stored as the claim says, and the batch goes on.
\<close>

theorem missing_mapping_type_raises:
  "match_all_fields None example_index untyped_mapping = Inl (KeyError ''mapping_type'') \<and>
   match_all_fields None example_index example_mapping =
     Inr ([(''[INSERT_A]'',
            ''[ERROR EXTRACTING CONTENT: '' @ [CHR 0x27] @ ''ib_section'' @ [CHR 0x27] @ '']''),
           (''[INSERT_B]'', ''[DATA NOT AVAILABLE IN IB - REQUIRES: Safety database query]''),
           (''[INSERT_C]'', ''[AI extraction skipped - no API key provided]'')], [])"
proof -
  have a: "match_all_fields None example_index untyped_mapping =
      Inl (KeyError ''mapping_type'')"
    by (simp add: untyped_mapping_def match_all_fields_def)
  have b: "match_all_fields None example_index example_mapping =
     Inr ([(''[INSERT_A]'',
            ''[ERROR EXTRACTING CONTENT: '' @ [CHR 0x27] @ ''ib_section'' @ [CHR 0x27] @ '']''),
           (''[INSERT_B]'', ''[DATA NOT AVAILABLE IN IB - REQUIRES: Safety database query]''),
           (''[INSERT_C]'', ''[AI extraction skipped - no API key provided]'')], [])"
    by code_simp
  from a b show ?thesis by (rule conjI)
qed

section \<open>Resolution of one field\<close>

text \<open>
  Claim C5.  With no gateway configured, a field classified \<open>synthesis_required\<close>
  resolves to exactly \<open>[AI extraction skipped - no API key provided]\<close>, and no lookup in
  the index or of pages is made: the list of lookups is empty, for \<open>ai_extract\<close> itself
  and for \<open>match_all_fields\<close> on the mapping with that one field.  The record's other
  keys are not read either (they may be absent).
\<close>

theorem synthesis_without_gateway:
  assumes "mapping_type info = Some ''synthesis_required''"
  shows "ai_extract None idx k info =
           (Inr ''[AI extraction skipped - no API key provided]'', []) \<and>
         match_all_fields None idx [(k, info)] =
           Inr ([(k, ''[AI extraction skipped - no API key provided]'')], [])"
  using assms
  by (simp add: match_all_fields_def resolve_field_def ai_extract_def)

theorem synthesis_without_gateway_witness:
  "mapping_type (snd (example_mapping ! 2)) = Some ''synthesis_required'' \<and>
   ai_extract None example_index ''[INSERT_C]'' (snd (example_mapping ! 2)) =
     (Inr ''[AI extraction skipped - no API key provided]'', []) \<and>
   match_all_fields None example_index [(''[INSERT_C]'', snd (example_mapping ! 2))] =
     Inr ([(''[INSERT_C]'', ''[AI extraction skipped - no API key provided]'')], [])"
proof -
  have t: "mapping_type (snd (example_mapping ! 2)) = Some ''synthesis_required''"
    by (simp add: example_mapping_def)
  from synthesis_without_gateway [OF t, of example_index "''[INSERT_C]''"] t
  show ?thesis by blast
qed

text \<open>What an unavailable field resolves to: the notes of the record, or the default phrase
  when the record has no \<open>notes\<close> key; no lookup is made.\<close>

lemma unavailable_field_content:
  "resolve_field client idx k info ''unavailable'' =
     (Inr (''[DATA NOT AVAILABLE IN IB - REQUIRES: '' @
           (case notes_val info of None \<Rightarrow> ''External data source required'' | Some n \<Rightarrow> n) @
           '']''), [])"
  by (simp add: resolve_field_def handle_unavailable_field_def dict_get_def)


lemma unavailable_row_parsed:
  "parse_mapping_file unavailable_row =
     [(''[INSERT_X]'',
       \<lparr>field_description = Some ''Exposure data'', ib_section = Some ''N/A'',
        ib_pages = Some [], mapping_type = Some ''unavailable'', notes_val = Some []\<rparr>)]"
  by code_simp

text \<open>
  Claim C6 at a row with an empty notes cell.  The parser stores the empty notes under
  the key \<open>notes\<close>, so the default of \<open>.get\<close> does not apply: the content names no
  requirement at all, where the claim promises a default phrase.
\<close>

theorem unavailable_empty_notes:
  "parse_mapping_file unavailable_row =
     [(''[INSERT_X]'',
       \<lparr>field_description = Some ''Exposure data'', ib_section = Some ''N/A'',
        ib_pages = Some [], mapping_type = Some ''unavailable'', notes_val = Some []\<rparr>)] \<and>
   match_all_fields client idx (parse_mapping_file unavailable_row) =
     Inr ([(''[INSERT_X]'', ''[DATA NOT AVAILABLE IN IB - REQUIRES: ]'')], [])"
  by (simp add: unavailable_row_parsed match_all_fields_def unavailable_field_content)

section \<open>Direct extraction and whitespace\<close>

lemma collapse_ws_chars: "c \<in> set (collapse_ws s) \<Longrightarrow> \<not> is_space c \<or> c = CHR '' ''"
  by (induction s rule: collapse_ws.induct) (auto split: if_splits)

lemma match_page_footer_set:
  "match_page_footer s = Some rest \<Longrightarrow> set rest \<subseteq> set s"
  by (auto simp: match_page_footer_def split: if_splits dest!: set_dropWhileD in_set_dropD)

lemma remove_page_footers_set: "set (remove_page_footers s) \<subseteq> set s"
proof (induction s rule: remove_page_footers.induct)
  case 1
  show ?case by simp
next
  case (2 c cs)
  show ?case
  proof (cases "match_page_footer (c # cs)")
    case None
    with 2 show ?thesis by auto
  next
    case (Some rest)
    with 2 match_page_footer_set[OF Some] show ?thesis by auto
  qed
qed

lemma strip_chars_set: "set (strip_chars P s) \<subseteq> set s"
  by (auto simp: strip_chars_def dest!: set_dropWhileD)

lemma clean_text_chars:
  assumes "c \<in> set (clean_text t)"
  shows "\<not> is_space c \<or> c = CHR '' ''"
proof -
  from assms have "c \<in> set (py_strip (remove_page_footers (collapse_ws t)))"
    by (auto simp: clean_text_def split: if_splits)
  then have "c \<in> set (collapse_ws t)"
    using strip_chars_set remove_page_footers_set unfolding py_strip_def by blast
  then show ?thesis by (rule collapse_ws_chars)
qed

lemma clean_text_no_newline: "NL \<notin> set (clean_text t)"
proof
  assume "NL \<in> set (clean_text t)"
  then have "\<not> is_space NL \<or> NL = CHR '' ''" by (rule clean_text_chars)
  then show False by (simp add: is_space_def NL_def)
qed

lemma direct_extract_no_newline:
  assumes "direct_extract idx info = (Inr content, l)"
  shows "NL \<notin> set content"
proof -
  from assms consider t where "content = clean_text t" | "content = ''[Content not found in IB]''"
    by (auto simp: direct_extract_def Let_def split: option.splits prod.splits if_splits)
  then show ?thesis
  proof cases
    case 1
    then show ?thesis by (simp add: clean_text_no_newline)
  next
    case 2
    then show ?thesis by (simp add: NL_def)
  qed
qed

lemma scenario_run:
  "match_all_fields None example_index (parse_mapping_file example_row) =
     Inr ([(''[INSERT_INDICATION]'',
            ''Indication [Content from page 12] [Content from page 13]'')],
          [SectionLookup ''1.2'', PageLookup [12, 13]])"
  by code_simp


text \<open>
  Claim C7, as stated: in the scenario the content would begin with the title followed by
  a blank line.  The title is joined to the page contents before \<open>_clean_text\<close> runs, so
  the blank line is collapsed to one space like every other run of whitespace.
\<close>

theorem heading_separator_counterexample:
  "match_all_fields None example_index (parse_mapping_file example_row) =
     Inr ([(''[INSERT_INDICATION]'',
            ''Indication [Content from page 12] [Content from page 13]'')],
          [SectionLookup ''1.2'', PageLookup [12, 13]]) \<and>
   \<not> prefix (''Indication'' @ [NL, NL])
       ''Indication [Content from page 12] [Content from page 13]''"
proof -
  have "\<not> prefix (''Indication'' @ [NL, NL])
       ''Indication [Content from page 12] [Content from page 13]''"
    by (simp add: NL_def)
  with scenario_run show ?thesis by blast
qed

text \<open>
  Claim C7, amended.  In the scenario the field is classified \<open>direct_extract\<close>, and the
  resolved content is the title and the contents of pages 12 and 13 (the placeholder text
  of the page provider), normalised as one text: they are separated by single spaces.  The
  content is \<open>_clean_text\<close> of the title, a blank line and the page contents joined by blank
  lines.  No content resolved by \<open>direct_extract\<close>, for any index and record, contains a
  line break.
\<close>

theorem direct_extract_scenario:
  "(\<exists>info. parse_mapping_file example_row = [(''[INSERT_INDICATION]'', info)] \<and>
      mapping_type info = Some ''direct_extract'' \<and>
      direct_extract example_index info =
        (Inr ''Indication [Content from page 12] [Content from page 13]'',
         [SectionLookup ''1.2'', PageLookup [12, 13]])) \<and>
   clean_text (''Indication'' @ [NL, NL] @ ''[Content from page 12]'' @ [NL, NL] @
               ''[Content from page 13]'') =
     ''Indication [Content from page 12] [Content from page 13]'' \<and>
   (\<forall>idx info content l. direct_extract idx info = (Inr content, l) \<longrightarrow> NL \<notin> set content)"
proof -
  have "direct_extract example_index (snd (hd (parse_mapping_file example_row))) =
        (Inr ''Indication [Content from page 12] [Content from page 13]'',
         [SectionLookup ''1.2'', PageLookup [12, 13]])"
    by code_simp
  then have a: "\<exists>info. parse_mapping_file example_row = [(''[INSERT_INDICATION]'', info)] \<and>
      mapping_type info = Some ''direct_extract'' \<and>
      direct_extract example_index info =
        (Inr ''Indication [Content from page 12] [Content from page 13]'',
         [SectionLookup ''1.2'', PageLookup [12, 13]])"
    by (simp add: example_row_parsed)
  have b: "clean_text (''Indication'' @ [NL, NL] @ ''[Content from page 12]'' @ [NL, NL] @
               ''[Content from page 13]'') =
     ''Indication [Content from page 12] [Content from page 13]''"
    by code_simp
  from a b direct_extract_no_newline show ?thesis by blast
qed

theorem direct_extract_scenario_witness:
  "direct_extract example_index (snd (hd (parse_mapping_file example_row))) =
     (Inr ''Indication [Content from page 12] [Content from page 13]'',
      [SectionLookup ''1.2'', PageLookup [12, 13]]) \<and>
   NL \<notin> set ''Indication [Content from page 12] [Content from page 13]''"
proof -
  have run: "direct_extract example_index (snd (hd (parse_mapping_file example_row))) =
        (Inr ''Indication [Content from page 12] [Content from page 13]'',
         [SectionLookup ''1.2'', PageLookup [12, 13]])"
    by code_simp
  from direct_extract_scenario run show ?thesis by blast
qed

section \<open>Section order\<close>

lemma subseq_set_subset: "subseq xs ys \<Longrightarrow> set xs \<subseteq> set ys"
  by (induction rule: list_emb.induct) auto

lemma subseq_sorted_map:
  "subseq xs ys \<Longrightarrow> sorted (map f ys) \<Longrightarrow> sorted (map f xs)"
proof (induction rule: list_emb.induct)
  case (list_emb_Nil ys)
  show ?case by simp
next
  case (list_emb_Cons xs ys y)
  then show ?case by simp
next
  case (list_emb_Cons2 x y xs ys)
  from list_emb_Cons2.hyps(2) have sub: "set xs \<subseteq> set ys" by (rule subseq_set_subset)
  from list_emb_Cons2.prems have tl: "sorted (map f ys)" and hd: "\<forall>z \<in> set ys. f y \<le> f z"
    by simp_all
  from list_emb_Cons2.IH[OF tl] have "sorted (map f xs)" .
  moreover from hd sub list_emb_Cons2.hyps(1) have "\<forall>z \<in> set xs. f x \<le> f z" by blast
  ultimately show ?case by simp
qed

lemma sorted_map_order:
  assumes "sorted (map f xs)" "a \<in> set xs" "b \<in> set xs" "f a < f b"
  shows "\<exists>pre mid suf. xs = pre @ a # mid @ b # suf"
proof -
  from assms(2) obtain pre rest where xs: "xs = pre @ a # rest"
    by (meson split_list)
  from assms(4) have ne: "b \<noteq> a" by auto
  have "b \<notin> set pre"
  proof
    assume "b \<in> set pre"
    with assms(1) xs have "f b \<le> f a" by (auto simp: sorted_append)
    with assms(4) show False by simp
  qed
  with assms(3) xs ne have "b \<in> set rest" by auto
  then obtain mid suf where "rest = mid @ b # suf" by (meson split_list)
  with xs show ?thesis by blast
qed

lemma py_split_nonempty: "py_split sep s \<noteq> []"
  by (induction s) (auto split: list.splits)

lemma hier_invI:
  assumes "subseq (map fst h) pre"
    and "\<And>x. x \<in> set h \<Longrightarrow> subseq (map fst (dict_get (subsections (snd x)) [])) pre"
  shows "hier_inv h pre"
  using assms unfolding hier_inv_def list_all_iff by blast

lemma update_keys_subseq:
  "subseq (map fst al) pre \<Longrightarrow> subseq (map fst (AList.update k v al)) (pre @ [k])"
  by (simp add: update_keys subseq_rev_drop_many)

lemma add_section_inv:
  assumes "hier_inv h pre"
  shows "hier_inv (add_section h e) (pre @ [fst e])"
proof -
  obtain k d where e: "e = (k, d)" by (cases e)
  from assms have keys: "subseq (map fst h) pre"
    and subs: "\<And>x. x \<in> set h \<Longrightarrow> subseq (map fst (dict_get (subsections (snd x)) [])) pre"
    by (auto simp: hier_inv_def list_all_iff)
  have weak: "\<And>x. x \<in> set h \<Longrightarrow>
      subseq (map fst (dict_get (subsections (snd x)) [])) (pre @ [k])"
    using subs by (simp add: subseq_rev_drop_many)
  show ?thesis
  proof (cases "length (py_split (CHR ''.'') k) = 1")
    case True
    let ?v = "\<lparr>title = Some (fs_title d), pages = Some (fs_pages d), subsections = Some []\<rparr>"
    from True e have h': "add_section h e = AList.update k ?v h"
      by (simp add: add_section_def Let_def)
    have "\<And>x. x \<in> set (AList.update k ?v h) \<Longrightarrow>
        subseq (map fst (dict_get (subsections (snd x)) [])) (pre @ [k])"
    proof -
      fix x assume "x \<in> set (AList.update k ?v h)"
      with update_set[of k ?v h] consider "x = (k, ?v)" | "x \<in> set h" by auto
      then show "subseq (map fst (dict_get (subsections (snd x)) [])) (pre @ [k])"
      proof cases
        case 1
        then show ?thesis by (simp add: dict_get_def)
      next
        case 2
        then show ?thesis by (rule weak)
      qed
    qed
    then have "hier_inv (AList.update k ?v h) (pre @ [k])"
      using update_keys_subseq[OF keys, of k ?v] by (intro hier_invI)
    with h' e show ?thesis by simp
  next
    case False
    obtain parent ps where parts: "py_split (CHR ''.'') k = parent # ps"
      using py_split_nonempty[of "CHR ''.''" k] by (cases "py_split (CHR ''.'') k") auto
    show ?thesis
    proof (cases "map_of h parent")
      case None
      with False parts e have "add_section h e = h"
        by (simp add: add_section_def Let_def)
      moreover have "hier_inv h (pre @ [k])"
        using keys weak by (intro hier_invI) (simp_all add: subseq_rev_drop_many)
      ultimately show ?thesis using e by simp
    next
      case (Some pdata)
      let ?sv = "\<lparr>sub_title = Some (fs_title d), sub_pages = Some (fs_pages d)\<rparr>"
      let ?subs = "AList.update k ?sv (dict_get (subsections pdata) [])"
      let ?v = "pdata\<lparr>subsections := Some ?subs\<rparr>"
      from Some False parts e have h': "add_section h e = AList.update parent ?v h"
        by (simp add: add_section_def Let_def)
      from Some have mem: "(parent, pdata) \<in> set h" by (rule map_of_SomeD)
      then have "fst (parent, pdata) \<in> fst ` set h" by (rule imageI)
      then have "parent \<in> set (map fst h)" by simp
      then have k': "map fst (AList.update parent ?v h) = map fst h"
        by (simp add: update_keys)
      from subs[OF mem] have "subseq (map fst (dict_get (subsections pdata) [])) pre" by simp
      then have new: "subseq (map fst ?subs) (pre @ [k])"
        by (rule update_keys_subseq)
      have "\<And>x. x \<in> set (AList.update parent ?v h) \<Longrightarrow>
          subseq (map fst (dict_get (subsections (snd x)) [])) (pre @ [k])"
      proof -
        fix x assume "x \<in> set (AList.update parent ?v h)"
        with update_set[of parent ?v h] consider "x = (parent, ?v)" | "x \<in> set h" by auto
        then show "subseq (map fst (dict_get (subsections (snd x)) [])) (pre @ [k])"
        proof cases
          case 1
          have "dict_get (subsections ?v) [] = ?subs" by (simp add: dict_get_def)
          with 1 new show ?thesis by simp
        next
          case 2
          then show ?thesis by (rule weak)
        qed
      qed
      moreover have "subseq (map fst (AList.update parent ?v h)) (pre @ [k])"
        using k' keys by (simp add: subseq_rev_drop_many)
      ultimately have "hier_inv (AList.update parent ?v h) (pre @ [k])"
        by (intro hier_invI)
      with h' e show ?thesis by simp
    qed
  qed
qed

lemma foldl_add_section_inv:
  "hier_inv h pre \<Longrightarrow> hier_inv (foldl add_section h items) (pre @ map fst items)"
proof (induction items arbitrary: h pre)
  case Nil
  then show ?case by simp
next
  case (Cons e items)
  from add_section_inv[OF Cons.prems, of e]
  have "hier_inv (add_section h e) (pre @ [fst e])" .
  from Cons.IH[OF this] show ?case by simp
qed

lemma map_item_key: "map item_key xs = map sort_key_of (map fst xs)"
  by (simp add: item_key_def)

lemma hier_sorted:
  assumes "sorted (map item_key items)"
  shows "sorted (map item_key (foldl add_section [] items)) \<and>
         list_all (\<lambda>e. sorted (map item_key (dict_get (subsections (snd e)) [])))
           (foldl add_section [] items)"
proof -
  have "hier_inv [] []" by (simp add: hier_inv_def)
  from foldl_add_section_inv[OF this, of items]
  have inv: "hier_inv (foldl add_section [] items) (map fst items)" by simp
  from assms have s: "sorted (map sort_key_of (map fst items))" by (simp add: map_item_key)
  from inv have "subseq (map fst (foldl add_section [] items)) (map fst items)"
    by (simp add: hier_inv_def)
  from subseq_sorted_map[OF this s]
  have top: "sorted (map item_key (foldl add_section [] items))" by (simp add: map_item_key)
  have "list_all (\<lambda>e. sorted (map item_key (dict_get (subsections (snd e)) [])))
           (foldl add_section [] items)"
    unfolding list_all_iff
  proof
    fix x assume "x \<in> set (foldl add_section [] items)"
    with inv have "subseq (map fst (dict_get (subsections (snd x)) [])) (map fst items)"
      by (simp add: hier_inv_def list_all_iff)
    from subseq_sorted_map[OF this s]
    show "sorted (map item_key (dict_get (subsections (snd x)) []))"
      by (simp add: map_item_key)
  qed
  with top show ?thesis by blast
qed

lemma item_key_Some:
  "section_sort_key (fst e) \<noteq> None \<Longrightarrow> section_sort_key (fst e) = Some (item_key e)"
  by (auto simp: item_key_def sort_key_of_def)

text \<open>
  Claim C9.  The sort key of a section number is the list of its dotted components as
  integers, compared as Python compares tuples; so \<open>1.9\<close> comes before \<open>1.10\<close>, which
  comes before \<open>2\<close>.  For every dictionary of sections whose numbers are dot-separated
  digit runs, the enumeration of \<open>_build_hierarchical_sections\<close> is a permutation of the
  entries in ascending order of that key: of two entries the one with the smaller key
  comes first.  The hierarchy built from it lists its top-level sections, and the
  subsections of each, in ascending order of the key.
\<close>

theorem section_order:
  assumes wf: "list_all (\<lambda>e. section_sort_key (fst e) \<noteq> None) secs"
  shows "section_sort_key ''1.9'' = Some [1, 9] \<and> section_sort_key ''1.10'' = Some [1, 10] \<and>
         section_sort_key ''2'' = Some [2] \<and> [1, 9] < [1, 10 :: int] \<and> [1, 10] < [2 :: int] \<and>
         (\<exists>items hier.
            sorted_items secs = Some items \<and>
            build_hierarchical_sections secs = Some hier \<and>
            mset items = mset secs \<and>
            (\<forall>e \<in> set secs. section_sort_key (fst e) = Some (item_key e)) \<and>
            sorted (map item_key items) \<and>
            (\<forall>a \<in> set secs. \<forall>b \<in> set secs. item_key a < item_key b \<longrightarrow>
               (\<exists>pre mid suf. items = pre @ a # mid @ b # suf)) \<and>
            sorted (map item_key hier) \<and>
            (\<forall>(p, d) \<in> set hier. sorted (map item_key (dict_get (subsections d) []))))"
proof -
  let ?items = "sort_key item_key secs"
  let ?hier = "foldl add_section [] ?items"
  have k1: "section_sort_key ''1.9'' = Some [1, 9]" by code_simp
  have k2: "section_sort_key ''1.10'' = Some [1, 10]" by code_simp
  have k3: "section_sort_key ''2'' = Some [2]" by code_simp
  have lt: "[1, 9] < [1, 10 :: int] \<and> [1, 10] < [2 :: int]" by simp
  from wf have si: "sorted_items secs = Some ?items" by (simp add: sorted_items_def)
  then have bh: "build_hierarchical_sections secs = Some ?hier"
    by (simp add: build_hierarchical_sections_def)
  have perm: "mset ?items = mset secs" by simp
  have keys: "\<forall>e \<in> set secs. section_sort_key (fst e) = Some (item_key e)"
  proof
    fix e assume "e \<in> set secs"
    with wf have "section_sort_key (fst e) \<noteq> None" by (simp add: list_all_iff)
    then show "section_sort_key (fst e) = Some (item_key e)" by (rule item_key_Some)
  qed
  have srt: "sorted (map item_key ?items)" by simp
  have ord: "\<forall>a \<in> set secs. \<forall>b \<in> set secs. item_key a < item_key b \<longrightarrow>
               (\<exists>pre mid suf. ?items = pre @ a # mid @ b # suf)"
  proof (intro ballI impI)
    fix a b assume "a \<in> set secs" "b \<in> set secs" "item_key a < item_key b"
    then show "\<exists>pre mid suf. ?items = pre @ a # mid @ b # suf"
      using sorted_map_order[OF srt, of a b] by simp
  qed
  from hier_sorted[OF srt]
  have h1: "sorted (map item_key ?hier)"
    and h2: "\<forall>(p, d) \<in> set ?hier. sorted (map item_key (dict_get (subsections d) []))"
    by (auto simp: list_all_iff)
  from k1 k2 k3 lt si bh perm keys srt ord h1 h2 show ?thesis by blast
qed

lemma example_sections_sorted:
  "sorted_items example_sections =
     Some [(''1'', \<lparr>fs_title = ''SUMMARY'', fs_pages = [10], fs_content = []\<rparr>),
           (''1.9'', \<lparr>fs_title = ''SAFETY'', fs_pages = [14], fs_content = []\<rparr>),
           (''1.10'', \<lparr>fs_title = ''DOSING'', fs_pages = [15], fs_content = []\<rparr>),
           (''2'', \<lparr>fs_title = ''INTRODUCTION'', fs_pages = [20], fs_content = []\<rparr>)]"
  by code_simp

lemma example_sections_built:
  "build_hierarchical_sections example_sections =
     Some [(''1'', \<lparr>title = Some ''SUMMARY'', pages = Some [10],
                   subsections = Some
                     [(''1.9'', \<lparr>sub_title = Some ''SAFETY'', sub_pages = Some [14]\<rparr>),
                      (''1.10'', \<lparr>sub_title = Some ''DOSING'', sub_pages = Some [15]\<rparr>)]\<rparr>),
           (''2'', \<lparr>title = Some ''INTRODUCTION'', pages = Some [20],
                   subsections = Some []\<rparr>)]"
  by code_simp

theorem section_order_witness:
  "list_all (\<lambda>e. section_sort_key (fst e) \<noteq> None) example_sections \<and>
   map fst (the (sorted_items example_sections)) = [''1'', ''1.9'', ''1.10'', ''2''] \<and>
   sorted (map item_key (the (sorted_items example_sections))) \<and>
   sorted (map item_key (the (build_hierarchical_sections example_sections)))"
proof -
  have wf: "list_all (\<lambda>e. section_sort_key (fst e) \<noteq> None) example_sections"
    by code_simp
  from section_order [OF wf] obtain items hier where
    "sorted_items example_sections = Some items"
    "build_hierarchical_sections example_sections = Some hier"
    "sorted (map item_key items)" "sorted (map item_key hier)"
    by blast
  then have "sorted (map item_key (the (sorted_items example_sections)))"
    "sorted (map item_key (the (build_hierarchical_sections example_sections)))"
    by simp_all
  moreover have "map fst (the (sorted_items example_sections)) = [''1'', ''1.9'', ''1.10'', ''2'']"
    by (simp add: example_sections_sorted)
  ultimately show ?thesis using wf by blast
qed

section \<open>Page lists: pieces, ranges and single numbers\<close>






















end
